theory Spec2Isabelle
  imports Main
begin

section \<open>JavaScript strings\<close>

text \<open>
  A JavaScript string is modelled as a list of code units below 256 (the Latin-1 range of
  UTF-16), one \<^typ>\<open>char\<close> per code unit. On that range \<open>toLowerCase\<close> moves
  \<open>A\<close>..\<open>Z\<close> and the accented capitals \<open>0xC0\<close>..\<open>0xDE\<close> (without the multiplication
  sign \<open>0xD7\<close>) up by 32 and leaves every other unit alone; the white space that \<open>trim\<close>
  removes is tab, line feed, vertical tab, form feed, carriage return, space and the
  no-break space \<open>0xA0\<close>.
\<close>

definition upperUnits :: string where
  "upperUnits = ''ABCDEFGHIJKLMNOPQRSTUVWXYZ'' @
     [CHR 0xC0, CHR 0xC1, CHR 0xC2, CHR 0xC3, CHR 0xC4, CHR 0xC5, CHR 0xC6, CHR 0xC7,
      CHR 0xC8, CHR 0xC9, CHR 0xCA, CHR 0xCB, CHR 0xCC, CHR 0xCD, CHR 0xCE, CHR 0xCF,
      CHR 0xD0, CHR 0xD1, CHR 0xD2, CHR 0xD3, CHR 0xD4, CHR 0xD5, CHR 0xD6,
      CHR 0xD8, CHR 0xD9, CHR 0xDA, CHR 0xDB, CHR 0xDC, CHR 0xDD, CHR 0xDE]"

definition lowerUnits :: string where
  "lowerUnits = ''abcdefghijklmnopqrstuvwxyz'' @
     [CHR 0xE0, CHR 0xE1, CHR 0xE2, CHR 0xE3, CHR 0xE4, CHR 0xE5, CHR 0xE6, CHR 0xE7,
      CHR 0xE8, CHR 0xE9, CHR 0xEA, CHR 0xEB, CHR 0xEC, CHR 0xED, CHR 0xEE, CHR 0xEF,
      CHR 0xF0, CHR 0xF1, CHR 0xF2, CHR 0xF3, CHR 0xF4, CHR 0xF5, CHR 0xF6,
      CHR 0xF8, CHR 0xF9, CHR 0xFA, CHR 0xFB, CHR 0xFC, CHR 0xFD, CHR 0xFE]"

definition lowerUnit :: "char \<Rightarrow> char" where
  "lowerUnit c = (case map_of (zip upperUnits lowerUnits) c of Some d \<Rightarrow> d | None \<Rightarrow> c)"

definition toLowerCase :: "string \<Rightarrow> string" where
  "toLowerCase s = map lowerUnit s"

fun startsWith :: "string \<Rightarrow> string \<Rightarrow> bool" where
  "startsWith s [] = True"
| "startsWith [] (d # ds) = False"
| "startsWith (c # cs) (d # ds) = (c = d \<and> startsWith cs ds)"

text \<open>\<open>s.includes(sub)\<close>: \<open>sub\<close> occurs in \<open>s\<close> as a contiguous run.\<close>

fun str_includes :: "string \<Rightarrow> string \<Rightarrow> bool" where
  "str_includes [] sub = (sub = [])"
| "str_includes (c # cs) sub = (startsWith (c # cs) sub \<or> str_includes cs sub)"

definition digitUnit :: "nat \<Rightarrow> char" where
  "digitUnit d = ''0123456789'' ! d"

text \<open>The decimal text of a natural number, as a template literal prints it.\<close>

fun showNat :: "nat \<Rightarrow> string" where
  "showNat n = (if n < 10 then [digitUnit n] else showNat (n div 10) @ [digitUnit (n mod 10)])"

declare showNat.simps [simp del]

section \<open>Job status as the job API returns it\<close>

text \<open>
  \<open>{name, status, totalSize, fileUrls, errors}\<close>: the code guards \<open>fileUrls\<close> and
  \<open>errors\<close> against being absent and compares \<open>totalSize\<close> with \<open>=== 0\<close>, so these
  three are optional.
\<close>

record job_object =
  obj_name :: string
  obj_status :: string
  obj_totalSize :: "int option"
  obj_fileUrls :: "string list option"
  obj_errors :: "string list option"

record import_job =
  ij_objectName :: string
  ij_status :: string

record job_status =
  st_status :: string
  st_objects :: "job_object list option"
  st_importJobs :: "import_job list option"

text \<open>A thrown \<open>Error\<close>: its message and, for an HTTP failure, \<open>error.response.status\<close>.\<close>

record js_error =
  message :: string
  response_status :: "nat option"

definition Error :: "string \<Rightarrow> js_error" where
  "Error msg = \<lparr>message = msg, response_status = None\<rparr>"

text \<open>
  What awaiting a call of the API client gives: the promise resolves, it rejects, or the
  client ends the process with \<open>process.exit(code)\<close>.
\<close>

datatype 'a call = Resolved 'a | Rejected js_error | ProcessExit nat

section \<open>utils/errorHandler.js\<close>

text \<open>
  \<open>ErrorHandler.handleJobFailure(status, options)\<close> prints the status's error fields to
  the console and then always executes \<open>throw new Error('Job failed')\<close>; the model keeps
  the thrown error. \<open>ErrorHandler.handleApiError\<close> and \<open>ErrorHandler.handleFileError\<close>
  print and then always execute \<open>process.exit(1)\<close>; the model keeps the exit code.
\<close>

definition handleJobFailure :: "job_status \<Rightarrow> js_error" where
  "handleJobFailure status = Error ''Job failed''"

definition handleApiError :: nat where
  "handleApiError = 1"

definition handleFileError :: nat where
  "handleFileError = 1"

section \<open>utils/jobManager.js\<close>

text \<open>
  The no-records test of lines 39--44: \<open>obj.status === 'Failed' && obj.totalSize === 0 &&
  obj.errors && obj.errors.some(error => error.includes('No ') && error.includes(' fetched'))\<close>.
\<close>

definition noRecordsErrors :: "job_object \<Rightarrow> bool" where
  "noRecordsErrors obj =
     (obj_totalSize obj = Some 0 \<and>
      (case obj_errors obj of
         None \<Rightarrow> False
       | Some errs \<Rightarrow> list_ex (\<lambda>error. str_includes error ''No '' \<and> str_includes error '' fetched'') errs))"

definition isNoRecords :: "job_object \<Rightarrow> bool" where
  "isNoRecords obj = (obj_status obj = ''Failed'' \<and> noRecordsErrors obj)"

definition isCompleted :: "job_object \<Rightarrow> bool" where
  "isCompleted obj = (obj_status obj = ''Completed'')"

text \<open>\<open>status.objects?.filter(...) || []\<close>: an absent list counts as empty.\<close>

definition objectsOf :: "job_status \<Rightarrow> job_object list" where
  "objectsOf status = (case st_objects status of None \<Rightarrow> [] | Some objs \<Rightarrow> objs)"

text \<open>
  What one iteration does with a status it has fetched: return it (a success status),
  return it as a partial success, throw through \<open>handleJobFailure\<close>, or wait five
  seconds and poll again.
\<close>

datatype decision = ReturnStatus | ReturnPartial | Fail | KeepWaiting

definition exportDecision :: "job_status \<Rightarrow> decision" where
  "exportDecision status =
     (let statusLower = toLowerCase (st_status status) in
      if statusLower = ''completed'' \<or> statusLower = ''succeeded'' then ReturnStatus
      else if statusLower = ''failed'' then
        (let completedObjects = filter isCompleted (objectsOf status);
             noRecordsObjects = filter isNoRecords (objectsOf status)
         in if length completedObjects > 0 \<or> length noRecordsObjects > 0
            then ReturnPartial else Fail)
      else KeepWaiting)"

definition importDecision :: "job_status \<Rightarrow> decision" where
  "importDecision status =
     (let statusLower = toLowerCase (st_status status) in
      if statusLower = ''completed'' \<or> statusLower = ''succeeded'' then ReturnStatus
      else if statusLower = ''failed'' then
        (let importJobs = (case st_importJobs status of None \<Rightarrow> [] | Some js \<Rightarrow> js);
             hasPartialSuccess =
               list_ex (\<lambda>job. ij_status job = ''PartialCompleted'' \<or> ij_status job = ''Completed'')
                 importJobs
         in if hasPartialSuccess then ReturnPartial else Fail)
      else if statusLower = ''partialcompleted'' then ReturnPartial
      else KeepWaiting)"

text \<open>
  The clock is the time elapsed since \<open>startTime\<close>, in milliseconds. The \<open>k\<close>-th status
  request of a job takes \<open>fetch_ms\<close> and ends as \<open>response\<close>; the timer that follows it
  fires \<open>timer_late_ms\<close> after its delay.
\<close>

record poll_step =
  fetch_ms :: nat
  response :: "job_status call"
  timer_late_ms :: nat

type_synonym status_client = "string \<Rightarrow> nat \<Rightarrow> poll_step"

datatype throw_site = AtTimeoutCheck | AtJobFailure | Rethrown

datatype outcome = Returned job_status | Thrown throw_site js_error | Exited nat

datatype log_line =
  LogProgress string | LogSuccess string | LogWarning string | LogJobStatus string

text \<open>
  The result of a polling run: how it ended, the elapsed time at the end, the elapsed
  times at which the status requests were issued, and the lines logged.
\<close>

record poll_result =
  pr_outcome :: outcome
  pr_elapsed :: nat
  pr_fetches :: "nat list"
  pr_log :: "log_line list"

function exportLoop ::
  "string \<Rightarrow> status_client \<Rightarrow> nat \<Rightarrow> nat \<Rightarrow> nat \<Rightarrow> nat list \<Rightarrow> log_line list \<Rightarrow> poll_result"
where
  "exportLoop jobId apiClient timeout k elapsed fetches log =
     (if elapsed > timeout * 1000 then
        \<lparr>pr_outcome = Thrown AtTimeoutCheck
           (Error (''Export job timed out after '' @ showNat timeout @ '' seconds'')),
         pr_elapsed = elapsed, pr_fetches = fetches, pr_log = log\<rparr>
      else
        (let step = apiClient jobId k;
             now = elapsed + fetch_ms step;
             fetches' = fetches @ [elapsed]
         in case response step of
              ProcessExit code \<Rightarrow>
                \<lparr>pr_outcome = Exited code, pr_elapsed = now, pr_fetches = fetches', pr_log = log\<rparr>
            | Rejected error \<Rightarrow>
                if response_status error = Some 404 then
                  exportLoop jobId apiClient timeout (Suc k) (now + 2000 + timer_late_ms step)
                    fetches' (log @ [LogWarning ''Export job not found yet, waiting...''])
                else
                  \<lparr>pr_outcome = Thrown Rethrown error, pr_elapsed = now,
                   pr_fetches = fetches', pr_log = log\<rparr>
            | Resolved status \<Rightarrow>
                (case exportDecision status of
                   ReturnStatus \<Rightarrow>
                     \<lparr>pr_outcome = Returned status, pr_elapsed = now, pr_fetches = fetches',
                      pr_log = log @ [LogSuccess ''Export job completed successfully!'']\<rparr>
                 | ReturnPartial \<Rightarrow>
                     \<lparr>pr_outcome = Returned status, pr_elapsed = now, pr_fetches = fetches',
                      pr_log = log @ [LogSuccess ''Export job completed with partial success'']\<rparr>
                 | Fail \<Rightarrow>
                     \<lparr>pr_outcome = Thrown AtJobFailure (handleJobFailure status),
                      pr_elapsed = now, pr_fetches = fetches', pr_log = log\<rparr>
                 | KeepWaiting \<Rightarrow>
                     exportLoop jobId apiClient timeout (Suc k) (now + 5000 + timer_late_ms step)
                       fetches' (log @ [LogJobStatus (st_status status)]))))"
  by pat_completeness auto
termination
  by (relation "measure (\<lambda>(jobId, apiClient, timeout, k, elapsed, fetches, log).
        Suc (timeout * 1000) - elapsed)") auto

declare exportLoop.simps [simp del]

definition waitForExportCompletion :: "string \<Rightarrow> status_client \<Rightarrow> nat \<Rightarrow> poll_result" where
  "waitForExportCompletion jobId apiClient timeout =
     exportLoop jobId apiClient timeout 0 0 [] [LogProgress ''Waiting for export job completion...'']"

function importLoop ::
  "string \<Rightarrow> status_client \<Rightarrow> nat \<Rightarrow> nat \<Rightarrow> nat \<Rightarrow> nat list \<Rightarrow> log_line list \<Rightarrow> poll_result"
where
  "importLoop jobId apiClient timeout k elapsed fetches log =
     (if elapsed > timeout * 1000 then
        \<lparr>pr_outcome = Thrown AtTimeoutCheck
           (Error (''Import job timed out after '' @ showNat timeout @ '' seconds'')),
         pr_elapsed = elapsed, pr_fetches = fetches, pr_log = log\<rparr>
      else
        (let step = apiClient jobId k;
             now = elapsed + fetch_ms step;
             fetches' = fetches @ [elapsed]
         in case response step of
              ProcessExit code \<Rightarrow>
                \<lparr>pr_outcome = Exited code, pr_elapsed = now, pr_fetches = fetches', pr_log = log\<rparr>
            | Rejected error \<Rightarrow>
                if response_status error = Some 404 then
                  importLoop jobId apiClient timeout (Suc k) (now + 2000 + timer_late_ms step)
                    fetches' (log @ [LogWarning ''Import job not found yet, waiting...''])
                else
                  \<lparr>pr_outcome = Thrown Rethrown error, pr_elapsed = now,
                   pr_fetches = fetches', pr_log = log\<rparr>
            | Resolved status \<Rightarrow>
                (case importDecision status of
                   ReturnStatus \<Rightarrow>
                     \<lparr>pr_outcome = Returned status, pr_elapsed = now, pr_fetches = fetches',
                      pr_log = log @ [LogSuccess ''Import job completed successfully!'']\<rparr>
                 | ReturnPartial \<Rightarrow>
                     \<lparr>pr_outcome = Returned status, pr_elapsed = now, pr_fetches = fetches',
                      pr_log = log @ [LogWarning ''Import job completed with partial success'']\<rparr>
                 | Fail \<Rightarrow>
                     \<lparr>pr_outcome = Thrown AtJobFailure (handleJobFailure status),
                      pr_elapsed = now, pr_fetches = fetches', pr_log = log\<rparr>
                 | KeepWaiting \<Rightarrow>
                     importLoop jobId apiClient timeout (Suc k) (now + 5000 + timer_late_ms step)
                       fetches' (log @ [LogJobStatus (st_status status)]))))"
  by pat_completeness auto
termination
  by (relation "measure (\<lambda>(jobId, apiClient, timeout, k, elapsed, fetches, log).
        Suc (timeout * 1000) - elapsed)") auto

declare importLoop.simps [simp del]

definition waitForImportCompletion :: "string \<Rightarrow> status_client \<Rightarrow> nat \<Rightarrow> poll_result" where
  "waitForImportCompletion jobId apiClient timeout =
     importLoop jobId apiClient timeout 0 0 [] [LogProgress ''Waiting for import job completion...'']"

section \<open>utils/apiClient.js\<close>

text \<open>
  \<open>axios.get\<close> either resolves with the response or rejects with an error whose
  \<open>response.status\<close> is the HTTP status (absent when no response arrived). \<open>ApiClient.get\<close>
  wraps the call in \<open>try\<close>/\<open>catch\<close>: it returns \<open>response.data\<close>, and on every rejection
  it calls \<open>ErrorHandler.handleApiError\<close>, which ends the process.
\<close>

datatype http_reply = HttpOk job_status | HttpFailed "nat option"

record http_step =
  http_ms :: nat
  http_reply :: http_reply
  http_timer_late_ms :: nat

type_synonym axios = "string \<Rightarrow> nat \<Rightarrow> http_step"

definition ApiClient_get :: "axios \<Rightarrow> string \<Rightarrow> nat \<Rightarrow> poll_step" where
  "ApiClient_get axios endpoint k =
     (let r = axios endpoint k in
      \<lparr>fetch_ms = http_ms r,
       response = (case http_reply r of
                     HttpOk data \<Rightarrow> Resolved data
                   | HttpFailed code \<Rightarrow> ProcessExit handleApiError),
       timer_late_ms = http_timer_late_ms r\<rparr>)"

definition getExportJobStatus :: "axios \<Rightarrow> status_client" where
  "getExportJobStatus axios jobId k = ApiClient_get axios (''/cpq/async/exports/'' @ jobId) k"

section \<open>services/strategy/exportStrategies.js\<close>

text \<open>
  The options the downloader reads. An option that is absent or the empty string is falsy.
\<close>

record options =
  opt_objectType :: "string option"
  opt_output :: "string option"
  opt_jobId :: "string option"

definition truthy :: "string option \<Rightarrow> bool" where
  "truthy v = (case v of None \<Rightarrow> False | Some s \<Rightarrow> s \<noteq> [])"

text \<open>Node's \<open>path\<close> module, which the downloader calls, is a parameter of the model.\<close>

record path_lib =
  extname :: "string \<Rightarrow> string"
  dirname :: "string \<Rightarrow> string"
  join :: "string \<Rightarrow> string \<Rightarrow> string"

text \<open>
  The surroundings of a download: what \<open>apiClient.downloadFile(url)\<close> gives, and whether
  \<open>fs.writeFileSync(path, data)\<close> succeeds (\<open>None\<close>) or throws an error with a message.
\<close>

record download_env =
  downloadFile :: "string \<Rightarrow> string call"
  writeFileSync :: "string \<Rightarrow> string \<Rightarrow> string option"

text \<open>
  What the loop does for one object, in order: the \<open>Logger\<close> lines, the download request,
  and the write of \<open>FileUtils.writeOutput\<close> (to the file, or to standard output when the
  output path is falsy).
\<close>

datatype action =
    LogDownloading
  | Fetch string
  | WriteFile string string
  | Stdout string
  | LogDownloaded
  | LogDownloadError string
  | LogNoRecords
  | LogFailed "string list option"
  | LogCompletedNoFile
  | LogOtherStatus string

datatype event = NoResultsWarning | ForObject job_object action

definition hasFile :: "job_object \<Rightarrow> bool" where
  "hasFile obj = (case obj_fileUrls obj of None \<Rightarrow> False | Some urls \<Rightarrow> length urls > 0)"

definition completedWithFile :: "job_object \<Rightarrow> bool" where
  "completedWithFile obj = (obj_status obj = ''Completed'' \<and> hasFile obj)"

text \<open>
  Line 56: an object is skipped (\<open>continue\<close>) when a type was requested and the
  lowercased name of the object is a different one.
\<close>

definition isRequested :: "options \<Rightarrow> job_object \<Rightarrow> bool" where
  "isRequested opts obj =
     (let requestedObjectType = map_option toLowerCase (opt_objectType opts);
          objName = toLowerCase (obj_name obj)
      in \<not> (truthy requestedObjectType \<and> Some objName \<noteq> requestedObjectType))"

text \<open>Lines 66--83: the path handed to \<open>FileUtils.writeOutput\<close>.\<close>

definition jobIdOrUnknown :: "options \<Rightarrow> string" where
  "jobIdOrUnknown opts =
     (case opt_jobId opts of
        None \<Rightarrow> ''unknown''
      | Some jobId \<Rightarrow> if jobId \<noteq> [] then jobId else ''unknown'')"

definition baseExtension :: "path_lib \<Rightarrow> options \<Rightarrow> string" where
  "baseExtension path opts =
     (let extension = (case opt_output opts of
                         None \<Rightarrow> ''.jsonl''
                       | Some out \<Rightarrow> if out \<noteq> [] then extname path out else ''.jsonl'')
      in if extension \<noteq> [] then extension else ''.jsonl'')"

definition inOutputDir :: "path_lib \<Rightarrow> options \<Rightarrow> string \<Rightarrow> string" where
  "inOutputDir path opts fileName =
     (case opt_output opts of
        None \<Rightarrow> fileName
      | Some out \<Rightarrow> if out \<noteq> [] then join path (dirname path out) fileName else fileName)"

definition outputPathFor :: "path_lib \<Rightarrow> options \<Rightarrow> bool \<Rightarrow> job_object \<Rightarrow> string option" where
  "outputPathFor path opts needsIndividualFiles obj =
     (if needsIndividualFiles then
        Some (inOutputDir path opts
                (toLowerCase (obj_name obj) @ ''-'' @ jobIdOrUnknown opts @ baseExtension path opts))
      else opt_output opts)"

text \<open>
  Lines 53--106, the body of the \<open>for\<close> loop for one object: the events it produces and,
  when the API client ended the process during the download, the exit code.
\<close>

definition downloadObject ::
  "download_env \<Rightarrow> path_lib \<Rightarrow> options \<Rightarrow> bool \<Rightarrow> job_object \<Rightarrow> event list \<times> nat option"
where
  "downloadObject env path opts needsIndividualFiles obj =
     (if \<not> isRequested opts obj then ([], None)
      else if completedWithFile obj then
           (let url = hd (case obj_fileUrls obj of None \<Rightarrow> [] | Some urls \<Rightarrow> urls) in
            case downloadFile env url of
              ProcessExit code \<Rightarrow>
                ([ForObject obj LogDownloading, ForObject obj (Fetch url)], Some code)
            | Rejected error \<Rightarrow>
                ([ForObject obj LogDownloading, ForObject obj (Fetch url),
                  ForObject obj (LogDownloadError (message error))], None)
            | Resolved data \<Rightarrow>
                (case outputPathFor path opts needsIndividualFiles obj of
                   None \<Rightarrow>
                     ([ForObject obj LogDownloading, ForObject obj (Fetch url),
                       ForObject obj (Stdout data), ForObject obj LogDownloaded], None)
                 | Some p \<Rightarrow>
                     if p = [] then
                       ([ForObject obj LogDownloading, ForObject obj (Fetch url),
                         ForObject obj (Stdout data), ForObject obj LogDownloaded], None)
                     else
                       (case writeFileSync env p data of
                          None \<Rightarrow>
                            ([ForObject obj LogDownloading, ForObject obj (Fetch url),
                              ForObject obj (WriteFile p data), ForObject obj LogDownloaded], None)
                        | Some msg \<Rightarrow>
                            ([ForObject obj LogDownloading, ForObject obj (Fetch url),
                              ForObject obj (LogDownloadError msg)], None))))
         else if obj_status obj = ''Failed'' then
           (if noRecordsErrors obj then ([ForObject obj LogNoRecords], None)
            else ([ForObject obj (LogFailed (obj_errors obj))], None))
         else if obj_status obj = ''Completed'' then ([ForObject obj LogCompletedNoFile], None)
         else ([ForObject obj (LogOtherStatus (obj_status obj))], None))"

text \<open>The \<open>for\<close> loop over \<open>validObjects\<close>; it ends early only when the process ends.\<close>

fun downloadLoop ::
  "download_env \<Rightarrow> path_lib \<Rightarrow> options \<Rightarrow> bool \<Rightarrow> job_object list \<Rightarrow> event list \<times> nat option"
where
  "downloadLoop env path opts needsIndividualFiles [] = ([], None)"
| "downloadLoop env path opts needsIndividualFiles (obj # rest) =
     (case downloadObject env path opts needsIndividualFiles obj of
        (events, Some code) \<Rightarrow> (events, Some code)
      | (events, None) \<Rightarrow>
          (case downloadLoop env path opts needsIndividualFiles rest of
             (events', exit) \<Rightarrow> (events @ events', exit)))"

text \<open>Lines 33--51: the early return, the filter on \<open>'Usage'\<close>, the count of completed objects.\<close>

definition downloadResults ::
  "download_env \<Rightarrow> path_lib \<Rightarrow> options \<Rightarrow> job_status \<Rightarrow> event list \<times> nat option"
where
  "downloadResults env path opts status =
     (case st_objects status of
        None \<Rightarrow> ([NoResultsWarning], None)
      | Some objects \<Rightarrow>
          if length objects = 0 then ([NoResultsWarning], None)
          else
            (let validObjects = filter (\<lambda>obj. obj_name obj \<noteq> ''Usage'') objects;
                 completedObjects = filter completedWithFile validObjects;
                 needsIndividualFiles = (length completedObjects > 1)
             in downloadLoop env path opts needsIndividualFiles validObjects))"

text \<open>The files written, in order, and the objects they were written for.\<close>

fun writesOf :: "event list \<Rightarrow> (job_object \<times> string \<times> string) list" where
  "writesOf [] = []"
| "writesOf (ForObject obj (WriteFile p data) # evs) = (obj, p, data) # writesOf evs"
| "writesOf (ev # evs) = writesOf evs"

fun objectOf :: "event \<Rightarrow> job_object option" where
  "objectOf NoResultsWarning = None"
| "objectOf (ForObject obj a) = Some obj"

section \<open>utils/fileUtils.js\<close>

text \<open>\<open>s.split(sep)\<close> for a one-unit separator, and \<open>lines.join(sep)\<close>.\<close>

fun split :: "char \<Rightarrow> string \<Rightarrow> string list" where
  "split sep [] = [[]]"
| "split sep (c # cs) =
     (if c = sep then [] # split sep cs
      else (case split sep cs of [] \<Rightarrow> [[c]] | piece # pieces \<Rightarrow> (c # piece) # pieces))"

fun joinWith :: "char \<Rightarrow> string list \<Rightarrow> string" where
  "joinWith sep [] = []"
| "joinWith sep [piece] = piece"
| "joinWith sep (piece # next # pieces) = piece @ sep # joinWith sep (next # pieces)"

definition newline :: char where
  "newline = CHR 0x0A"

definition isWhiteSpace :: "char \<Rightarrow> bool" where
  "isWhiteSpace c =
     (c = CHR 0x09 \<or> c = CHR 0x0A \<or> c = CHR 0x0B \<or> c = CHR 0x0C \<or> c = CHR 0x0D \<or>
      c = CHR 0x20 \<or> c = CHR 0xA0)"

definition trim :: "string \<Rightarrow> string" where
  "trim s = rev (dropWhile isWhiteSpace (rev (dropWhile isWhiteSpace s)))"

text \<open>\<open>content.split('\n').filter(line => line.trim())\<close>: the lines that are not blank.\<close>

definition nonBlankLines :: "string \<Rightarrow> string list" where
  "nonBlankLines content = filter (\<lambda>line. trim line \<noteq> []) (split newline content)"

text \<open>
  A JSON value as \<open>JSON.parse\<close> builds it. An object is the list of its properties in
  insertion order. The number type is left open. \<open>JSON.parse\<close> and \<open>JSON.stringify\<close>
  belong to the runtime and are parameters of the model; a \<open>SyntaxError\<close> of
  \<open>JSON.parse\<close> is \<open>None\<close>.
\<close>

datatype 'n json =
    JNull
  | JBool bool
  | JNum 'n
  | JStr string
  | JArr "'n json list"
  | JObj "(string \<times> 'n json) list"

record 'n JSON =
  parse :: "string \<Rightarrow> 'n json option"
  stringify :: "'n json \<Rightarrow> string"

text \<open>
  A synchronous helper of \<open>FileUtils\<close> either returns or reaches
  \<open>ErrorHandler.handleFileError\<close>, which ends the process.
\<close>

datatype 'a result = Ok 'a | Exit nat

text \<open>
  The file system as the helpers use it. \<open>fs.readFileSync(path, 'utf8')\<close> returns the text
  of the file or throws (\<open>None\<close>). \<open>fs.writeFileSync(path, content)\<close> throws when the
  path cannot be written (its directory is missing, the disk is full, the process may not
  write there); otherwise the file holds the content afterwards.
\<close>

record files =
  readFileSync :: "string \<Rightarrow> string option"
  writable :: "string \<Rightarrow> bool"

definition fs_writeFileSync :: "files \<Rightarrow> string \<Rightarrow> string \<Rightarrow> files option" where
  "fs_writeFileSync fs p content =
     (if writable fs p then Some (fs\<lparr>readFileSync := (readFileSync fs)(p \<mapsto> content)\<rparr>)
      else None)"






text \<open>The metadata line of the import format, written by a template literal.\<close>

definition metaLine :: "string \<Rightarrow> string" where
  "metaLine objectName =
     [CHR 0x7B, CHR 0x22] @ ''meta'' @ [CHR 0x22] @ '': '' @ [CHR 0x7B, CHR 0x22] @ ''objectname'' @
     [CHR 0x22] @ '': '' @ [CHR 0x22] @ toLowerCase objectName @ [CHR 0x22, CHR 0x7D, CHR 0x7D]"


text \<open>\<open>s.replace(pattern, replacement)\<close> for a string pattern: the first occurrence only.\<close>

fun replaceFirst :: "string \<Rightarrow> string \<Rightarrow> string \<Rightarrow> string" where
  "replaceFirst [] pattern replacement = (if pattern = [] then replacement else [])"
| "replaceFirst (c # cs) pattern replacement =
     (if startsWith (c # cs) pattern then replacement @ drop (length pattern) (c # cs)
      else c # replaceFirst cs pattern replacement)"


text \<open>
  \<open>firstLine.meta_objectName || objectType.toLowerCase()\<close> followed by
  \<open>objectName.toLowerCase()\<close>: reading a property of \<open>null\<close> throws, a property that is
  absent or falsy gives way to the object type, a truthy value that is not a string has
  no \<open>toLowerCase\<close>.
\<close>

definition objectNameOf :: "('n::zero) json \<Rightarrow> string \<Rightarrow> string option" where
  "objectNameOf firstLine objectType =
     (case firstLine of
        JNull \<Rightarrow> None
      | JObj props \<Rightarrow>
          (case map_of props ''meta_objectName'' of
             None \<Rightarrow> Some (toLowerCase objectType)
           | Some JNull \<Rightarrow> Some (toLowerCase objectType)
           | Some (JBool b) \<Rightarrow> if b then None else Some (toLowerCase objectType)
           | Some (JNum n) \<Rightarrow> if n = 0 then Some (toLowerCase objectType) else None
           | Some (JStr s) \<Rightarrow> if s = [] then Some (toLowerCase objectType) else Some s
           | Some (JArr xs) \<Rightarrow> None
           | Some (JObj ps) \<Rightarrow> None)
      | _ \<Rightarrow> Some (toLowerCase objectType))"

definition convertExportedFileToImportFormat ::
  "('n::zero) JSON \<Rightarrow> files \<Rightarrow> string \<Rightarrow> string \<Rightarrow> (files \<times> string) result"
where
  "convertExportedFileToImportFormat J fs filePath objectType =
     (case readFileSync fs filePath of
        None \<Rightarrow> Exit handleFileError
      | Some content \<Rightarrow>
          (let lines = nonBlankLines content in
           if length lines = 0 then Exit handleFileError
           else
             (case parse J (hd lines) of
                None \<Rightarrow> Exit handleFileError
              | Some firstLine \<Rightarrow>
                  (case objectNameOf firstLine objectType of
                     None \<Rightarrow> Exit handleFileError
                   | Some objectName \<Rightarrow>
                       (let importLines = metaLine objectName # drop 1 lines;
                            importContent = joinWith newline importLines;
                            importFile = replaceFirst filePath ''.jsonl'' ''-import.jsonl''
                        in case fs_writeFileSync fs importFile importContent of
                             None \<Rightarrow> Exit handleFileError
                           | Some fs' \<Rightarrow> Ok (fs', importFile))))))"

text \<open>\<open>path.basename\<close> on a POSIX path: the part after the last slash, trailing slashes dropped.\<close>

definition basename :: "string \<Rightarrow> string" where
  "basename p =
     rev (takeWhile (\<lambda>c. c \<noteq> CHR ''/'') (dropWhile (\<lambda>c. c = CHR ''/'') (rev p)))"

text \<open>
  The multipart form: one part per appended file (field name, file path, file name), and
  the lines logged.
\<close>

datatype form_log = Adding string string | Skipping string string

record form_data =
  parts :: "(string \<times> string \<times> string) list"
  form_log :: "form_log list"

text \<open>
  \<open>getFieldName\<close> returns a string or \<open>undefined\<close>; the batcher appends the file when the
  result is truthy, and logs the warning \<open>Skipping ... - unknown object type\<close> otherwise.
\<close>

definition createMultiFileFormData :: "string list \<Rightarrow> (string \<Rightarrow> string option) \<Rightarrow> form_data" where
  "createMultiFileFormData files getFieldName =
     fold (\<lambda>filePath formData.
             (let fileName = basename filePath;
                  objectType = hd (split (CHR ''-'') fileName);
                  fieldName = getFieldName objectType
              in case fieldName of
                   None \<Rightarrow>
                     formData\<lparr>form_log := form_log formData @ [Skipping fileName objectType]\<rparr>
                 | Some field \<Rightarrow>
                     if field \<noteq> [] then
                       formData\<lparr>parts := parts formData @ [(field, filePath, fileName)],
                                form_log := form_log formData @ [Adding objectType fileName]\<rparr>
                     else
                       formData\<lparr>form_log := form_log formData @ [Skipping fileName objectType]\<rparr>))
       files \<lparr>parts = [], form_log = []\<rparr>"

section \<open>commands/platform/metadata/import.js\<close>

definition fieldMap :: "(string \<times> string) list" where
  "fieldMap =
     [(''uom'', ''uom''),
      (''credittype'', ''creditType''),
      (''creditpool'', ''creditPool''),
      (''creditconversion'', ''creditConversion''),
      (''pricebook'', ''priceBook''),
      (''pricetag'', ''priceTag''),
      (''productgroup'', ''productGroup''),
      (''product'', ''product''),
      (''bundle'', ''bundle''),
      (''bundlesuite'', ''bundleSuite''),
      (''customsetting'', ''customSetting'')]"

text \<open>\<open>fieldMap[objectType?.toLowerCase()] || objectType?.toLowerCase()\<close>.\<close>

definition getFormFieldName :: "string \<Rightarrow> string option" where
  "getFormFieldName objectType =
     (case map_of fieldMap (toLowerCase objectType) of
        Some fieldName \<Rightarrow> Some fieldName
      | None \<Rightarrow> Some (toLowerCase objectType))"

section \<open>Example inputs\<close>

text \<open>
  The scenario of an export of two object types: the first completed with a file, the
  second failed with zero records and the text \<open>No Bundle records fetched\<close>; next to them an
  object that failed for a real reason and a completed \<open>Usage\<close> object.
\<close>

definition productObject :: job_object where
  "productObject =
     \<lparr>obj_name = ''Product'', obj_status = ''Completed'', obj_totalSize = Some 3,
      obj_fileUrls = Some [''https://files.example/product''], obj_errors = None\<rparr>"

definition bundleObject :: job_object where
  "bundleObject =
     \<lparr>obj_name = ''Bundle'', obj_status = ''Completed'', obj_totalSize = Some 7,
      obj_fileUrls = Some [''https://files.example/bundle''], obj_errors = None\<rparr>"

definition usageObject :: job_object where
  "usageObject =
     \<lparr>obj_name = ''Usage'', obj_status = ''Completed'', obj_totalSize = Some 9,
      obj_fileUrls = Some [''https://files.example/usage''], obj_errors = None\<rparr>"

definition emptyObject :: job_object where
  "emptyObject =
     \<lparr>obj_name = ''Bundle'', obj_status = ''Failed'', obj_totalSize = Some 0,
      obj_fileUrls = None, obj_errors = Some [''No Bundle records fetched'']\<rparr>"

definition brokenObject :: job_object where
  "brokenObject =
     \<lparr>obj_name = ''Product'', obj_status = ''Failed'', obj_totalSize = Some 5,
      obj_fileUrls = None, obj_errors = Some [''Query failed'']\<rparr>"

definition statusOf :: "string \<Rightarrow> job_object list \<Rightarrow> job_status" where
  "statusOf s objs = \<lparr>st_status = s, st_objects = Some objs, st_importJobs = None\<rparr>"

text \<open>A client whose every status request takes \<open>ms\<close> milliseconds and resolves with the same status.\<close>

definition steadyClient :: "nat \<Rightarrow> job_status \<Rightarrow> status_client" where
  "steadyClient ms status jobId k = \<lparr>fetch_ms = ms, response = Resolved status, timer_late_ms = 0\<rparr>"

text \<open>A client whose first answer is \<open>first\<close> and whose later answers are \<open>later\<close>.\<close>

definition twoPhaseClient :: "nat \<Rightarrow> job_status \<Rightarrow> job_status \<Rightarrow> status_client" where
  "twoPhaseClient ms first later jobId k =
     \<lparr>fetch_ms = ms, response = Resolved (if k = 0 then first else later), timer_late_ms = 0\<rparr>"

text \<open>A server that answers the first status request with HTTP 404 and the later ones with the status.\<close>

definition notFoundAtFirst :: "job_status \<Rightarrow> axios" where
  "notFoundAtFirst status endpoint k =
     \<lparr>http_ms = 120,
      http_reply = (if k = 0 then HttpFailed (Some 404) else HttpOk status),
      http_timer_late_ms = 0\<rparr>"

text \<open>Downloads and writes that all succeed, and a stand-in for \<open>path\<close> on simple relative paths.\<close>

definition exampleEnv :: download_env where
  "exampleEnv =
     \<lparr>downloadFile = (\<lambda>url. Resolved (''data of '' @ url)), writeFileSync = (\<lambda>p data. None)\<rparr>"

definition examplePath :: path_lib where
  "examplePath =
     \<lparr>extname = (\<lambda>p. let after = takeWhile (\<lambda>c. c \<noteq> CHR ''.'') (rev p)
                     in if length after < length p then ''.'' @ rev after else []),
      dirname = (\<lambda>p. let dir = rev (drop 1 (dropWhile (\<lambda>c. c \<noteq> CHR ''/'') (rev p)))
                     in if dir = [] then ''.'' else dir),
      join = (\<lambda>dir fileName. dir @ ''/'' @ fileName)\<rparr>"

definition exampleOptions :: "string option \<Rightarrow> string option \<Rightarrow> options" where
  "exampleOptions objectType output =
     \<lparr>opt_objectType = objectType, opt_output = output, opt_jobId = Some ''job-42''\<rparr>"

text \<open>
  A runtime for the examples, for values whose numbers are natural numbers and whose strings
  need no escape: \<open>stringify\<close> prints them the way \<open>JSON.stringify\<close> does, and \<open>parse\<close>
  reads such a text by recursive descent (the first argument bounds the depth of the
  descent; the text itself is long enough).
\<close>

fun exampleStringify :: "nat json \<Rightarrow> string" where
  "exampleStringify JNull = ''null''"
| "exampleStringify (JBool b) = (if b then ''true'' else ''false'')"
| "exampleStringify (JNum n) = showNat n"
| "exampleStringify (JStr s) = [CHR 0x22] @ s @ [CHR 0x22]"
| "exampleStringify (JArr items) = ''['' @ joinWith (CHR '','') (map exampleStringify items) @ '']''"
| "exampleStringify (JObj props) =
     ''{'' @ joinWith (CHR '','')
              (map (\<lambda>(k, v). [CHR 0x22] @ k @ [CHR 0x22] @ '':'' @ exampleStringify v) props) @ ''}''"

definition exampleRecords :: "nat json list" where
  "exampleRecords =
     [JObj [(''id'', JNum 1), (''name'', JStr ''Basic plan'')],
      JObj [(''id'', JNum 2), (''name'', JStr ''Plus plan'')],
      JObj [(''id'', JNum 3), (''name'', JStr ''Pro plan'')]]"

definition exampleMeta :: "nat json" where
  "exampleMeta = JObj [(''meta_objectName'', JStr ''Product'')]"

definition isDigit :: "char \<Rightarrow> bool" where
  "isDigit c = (c \<in> set ''0123456789'')"

definition digitValue :: "char \<Rightarrow> nat" where
  "digitValue c = length (takeWhile (\<lambda>d. d \<noteq> c) ''0123456789'')"

definition readNat :: "string \<Rightarrow> nat" where
  "readNat ds = foldl (\<lambda>n d. 10 * n + digitValue d) 0 ds"

definition quote :: char where
  "quote = CHR 0x22"

fun parseValue :: "string \<Rightarrow> string \<Rightarrow> (nat json \<times> string) option"
and parseItems :: "string \<Rightarrow> string \<Rightarrow> (nat json list \<times> string) option"
and parseMembers :: "string \<Rightarrow> string \<Rightarrow> ((string \<times> nat json) list \<times> string) option"
where
  "parseValue [] s = None"
| "parseValue (x # fuel) s =
     (if startsWith s ''null'' then Some (JNull, drop 4 s)
      else if startsWith s ''true'' then Some (JBool True, drop 4 s)
      else if startsWith s ''false'' then Some (JBool False, drop 5 s)
      else if startsWith s ''[]'' then Some (JArr [], drop 2 s)
      else if startsWith s ''{}'' then Some (JObj [], drop 2 s)
      else case s of
        [] \<Rightarrow> None
      | c # rest \<Rightarrow>
          if c = quote then
            (case dropWhile (\<lambda>d. d \<noteq> quote) rest of
               [] \<Rightarrow> None
             | q # rest' \<Rightarrow> Some (JStr (takeWhile (\<lambda>d. d \<noteq> quote) rest), rest'))
          else if c = CHR ''['' then
            (case parseItems fuel rest of
               None \<Rightarrow> None
             | Some (items, rest') \<Rightarrow> Some (JArr items, rest'))
          else if c = CHR ''{'' then
            (case parseMembers fuel rest of
               None \<Rightarrow> None
             | Some (props, rest') \<Rightarrow> Some (JObj props, rest'))
          else if isDigit c then
            Some (JNum (readNat (takeWhile isDigit s)), dropWhile isDigit s)
          else None)"
| "parseItems [] s = None"
| "parseItems (x # fuel) s =
     (case parseValue fuel s of
        None \<Rightarrow> None
      | Some (v, rest) \<Rightarrow>
          (case rest of
             [] \<Rightarrow> None
           | c # rest' \<Rightarrow>
               if c = CHR '']'' then Some ([v], rest')
               else if c = CHR '','' then
                 (case parseItems fuel rest' of
                    None \<Rightarrow> None
                  | Some (vs, rest'') \<Rightarrow> Some (v # vs, rest''))
               else None))"
| "parseMembers [] s = None"
| "parseMembers (x # fuel) s =
     (case s of
        [] \<Rightarrow> None
      | c # afterQuote \<Rightarrow>
          if c \<noteq> quote then None
          else
            (case dropWhile (\<lambda>d. d \<noteq> quote) afterQuote of
               [] \<Rightarrow> None
             | q # afterKey \<Rightarrow>
                 (case afterKey of
                    [] \<Rightarrow> None
                  | colon # afterColon \<Rightarrow>
                      if colon \<noteq> CHR '':'' then None
                      else
                        (case parseValue fuel afterColon of
                           None \<Rightarrow> None
                         | Some (v, rest) \<Rightarrow>
                             (case rest of
                                [] \<Rightarrow> None
                              | c' # rest' \<Rightarrow>
                                  if c' = CHR ''}'' then
                                    Some ([(takeWhile (\<lambda>d. d \<noteq> quote) afterQuote, v)], rest')
                                  else if c' = CHR '','' then
                                    (case parseMembers fuel rest' of
                                       None \<Rightarrow> None
                                     | Some (props, rest'') \<Rightarrow>
                                         Some ((takeWhile (\<lambda>d. d \<noteq> quote) afterQuote, v) # props, rest''))
                                  else None)))))"

definition exampleParse :: "string \<Rightarrow> nat json option" where
  "exampleParse s = (case parseValue (CHR ''.'' # s) s of Some (v, []) \<Rightarrow> Some v | _ \<Rightarrow> None)"

definition exampleJSON :: "nat JSON" where
  "exampleJSON = \<lparr>parse = exampleParse, stringify = exampleStringify\<rparr>"

text \<open>
  The values the example runtime is meant for: a string is plain when no unit of it needs an
  escape in JSON (no double quote, no backslash, no control character). The further notions
  serve the proof that the runtime reads back what it prints.
\<close>

definition escapedUnits :: string where
  "escapedUnits =
     [CHR 0x22, CHR 0x5C,
      CHR 0x00, CHR 0x01, CHR 0x02, CHR 0x03, CHR 0x04, CHR 0x05, CHR 0x06, CHR 0x07,
      CHR 0x08, CHR 0x09, CHR 0x0A, CHR 0x0B, CHR 0x0C, CHR 0x0D, CHR 0x0E, CHR 0x0F,
      CHR 0x10, CHR 0x11, CHR 0x12, CHR 0x13, CHR 0x14, CHR 0x15, CHR 0x16, CHR 0x17,
      CHR 0x18, CHR 0x19, CHR 0x1A, CHR 0x1B, CHR 0x1C, CHR 0x1D, CHR 0x1E, CHR 0x1F]"

definition plainString :: "string \<Rightarrow> bool" where
  "plainString s = list_all (\<lambda>c. c \<notin> set escapedUnits) s"

fun plain :: "nat json \<Rightarrow> bool" where
  "plain JNull = True"
| "plain (JBool b) = True"
| "plain (JNum n) = True"
| "plain (JStr s) = plainString s"
| "plain (JArr items) = list_all plain items"
| "plain (JObj props) = list_all (\<lambda>(k, v). plainString k \<and> plain v) props"

definition opener :: "char \<Rightarrow> bool" where
  "opener c = (isDigit c \<or> c \<in> set ''ntf[{'' \<or> c = quote)"

definition readsBack :: "nat json \<Rightarrow> bool" where
  "readsBack v = (\<forall>fuel rest. length (exampleStringify v) \<le> length fuel
                \<longrightarrow> (rest = [] \<or> \<not> isDigit (hd rest))
                \<longrightarrow> parseValue fuel (exampleStringify v @ rest) = Some (v, rest))"

definition printMember :: "string \<times> nat json \<Rightarrow> string" where
  "printMember = (\<lambda>(k, v). [CHR 0x22] @ k @ [CHR 0x22] @ '':'' @ exampleStringify v)"

text \<open>
  A JSON array of three records, and a file as an export leaves it: its metadata line,
  the three records, a final newline. The same exported file lies in the directory
  \<open>exports.jsonl.d\<close> as well. Every path can be written except those under
  \<open>exports-import.jsonl.d\<close>, a directory that does not exist.
\<close>

definition exportedContent :: string where
  "exportedContent =
     joinWith newline (map exampleStringify (exampleMeta # exampleRecords)) @ [newline]"

definition exampleFiles :: files where
  "exampleFiles =
     \<lparr>readFileSync =
        [''products.json'' \<mapsto> exampleStringify (JArr exampleRecords),
         ''product-job-42.jsonl'' \<mapsto> exportedContent,
         ''exports.jsonl.d/product.jsonl'' \<mapsto> exportedContent],
      writable = (\<lambda>p. \<not> startsWith p ''exports-import.jsonl.d/'')\<rparr>"

section \<open>Lemmas on the polling loops\<close>

lemma exportLoop_timeout_late:
  "pr_outcome (exportLoop jobId apiClient timeout k elapsed fetches log) = Thrown AtTimeoutCheck e
   \<Longrightarrow> timeout * 1000 < pr_elapsed (exportLoop jobId apiClient timeout k elapsed fetches log)
     \<and> e = Error (''Export job timed out after '' @ showNat timeout @ '' seconds'')"
proof (induction jobId apiClient timeout k elapsed fetches log rule: exportLoop.induct)
  case (1 jobId apiClient timeout k elapsed fetches log)
  show ?case
  proof (cases "elapsed > timeout * 1000")
    case True
    with "1.prems" show ?thesis by (simp add: exportLoop.simps)
  next
    case False
    with "1.prems" "1.IH" show ?thesis
      by (subst (asm) exportLoop.simps, subst exportLoop.simps)
         (auto simp: Let_def split: call.splits if_splits decision.splits)
  qed
qed

lemma exportLoop_fetch_times:
  "list_all (\<lambda>t. t \<le> timeout * 1000) fetches \<Longrightarrow>
   list_all (\<lambda>t. t \<le> timeout * 1000) (pr_fetches (exportLoop jobId apiClient timeout k elapsed fetches log))"
proof (induction jobId apiClient timeout k elapsed fetches log rule: exportLoop.induct)
  case (1 jobId apiClient timeout k elapsed fetches log)
  show ?case
  proof (cases "elapsed > timeout * 1000")
    case True
    with "1.prems" show ?thesis by (simp add: exportLoop.simps)
  next
    case False
    with "1.prems" "1.IH" show ?thesis
      by (subst exportLoop.simps)
         (auto simp: Let_def split: call.splits if_splits decision.splits)
  qed
qed

lemma poll_budget_step:
  assumes "\<not> elapsed > (T::nat)" "elapsed + 2000 \<le> e'"
  shows "(if e' > T then 0 else (T - e') div 2000 + 1) \<le> (T - elapsed) div 2000"
proof (cases "e' > T")
  case True
  then show ?thesis by simp
next
  case False
  then have "T - e' + 2000 \<le> T - elapsed" using assms by simp
  then have "(T - e' + 2000) div 2000 \<le> (T - elapsed) div 2000"
    by (rule div_le_mono)
  with False show ?thesis by simp
qed

lemma exportLoop_fetch_count:
  "length (pr_fetches (exportLoop jobId apiClient timeout k elapsed fetches log))
     \<le> length fetches + (if elapsed > timeout * 1000 then 0 else (timeout * 1000 - elapsed) div 2000 + 1)"
proof (induction jobId apiClient timeout k elapsed fetches log rule: exportLoop.induct)
  case (1 jobId apiClient timeout k elapsed fetches log)
  show ?case
  proof (cases "elapsed > timeout * 1000")
    case True
    then show ?thesis by (simp add: exportLoop.simps)
  next
    case False
    define step where "step = apiClient jobId k"
    define e2 where "e2 = elapsed + fetch_ms step + 2000 + timer_late_ms step"
    define e5 where "e5 = elapsed + fetch_ms step + 5000 + timer_late_ms step"
    have b2: "(if e2 > timeout * 1000 then 0 else (timeout * 1000 - e2) div 2000 + 1)
        \<le> (timeout * 1000 - elapsed) div 2000"
      by (rule poll_budget_step [OF False]) (simp add: e2_def)
    have b5: "(if e5 > timeout * 1000 then 0 else (timeout * 1000 - e5) div 2000 + 1)
        \<le> (timeout * 1000 - elapsed) div 2000"
      by (rule poll_budget_step [OF False]) (simp add: e5_def)
    show ?thesis
    proof (cases "response step")
      case (Resolved status)
      show ?thesis
      proof (cases "exportDecision status")
        case KeepWaiting
        have "length (pr_fetches (exportLoop jobId apiClient timeout (Suc k) e5 (fetches @ [elapsed])
                 (log @ [LogJobStatus (st_status status)])))
              \<le> length (fetches @ [elapsed]) + (if e5 > timeout * 1000 then 0 else (timeout * 1000 - e5) div 2000 + 1)"
          unfolding e5_def step_def
          by (rule "1.IH"(1) [OF False refl refl refl _ KeepWaiting]) (use Resolved in \<open>simp add: step_def\<close>)
        moreover have "exportLoop jobId apiClient timeout k elapsed fetches log =
            exportLoop jobId apiClient timeout (Suc k) e5 (fetches @ [elapsed])
                 (log @ [LogJobStatus (st_status status)])"
          using False Resolved KeepWaiting
          by (subst exportLoop.simps) (simp add: Let_def step_def e5_def)
        ultimately show ?thesis using b5 False by simp
      qed (use False Resolved in \<open>simp_all add: exportLoop.simps [of jobId apiClient timeout k] Let_def step_def\<close>)
    next
      case (Rejected error)
      show ?thesis
      proof (cases "response_status error = Some 404")
        case True
        have "length (pr_fetches (exportLoop jobId apiClient timeout (Suc k) e2 (fetches @ [elapsed])
                 (log @ [LogWarning ''Export job not found yet, waiting...''])))
              \<le> length (fetches @ [elapsed]) + (if e2 > timeout * 1000 then 0 else (timeout * 1000 - e2) div 2000 + 1)"
          unfolding e2_def step_def
          by (rule "1.IH"(2) [OF False refl refl refl _ True]) (use Rejected in \<open>simp add: step_def\<close>)
        moreover have "exportLoop jobId apiClient timeout k elapsed fetches log =
            exportLoop jobId apiClient timeout (Suc k) e2 (fetches @ [elapsed])
                 (log @ [LogWarning ''Export job not found yet, waiting...''])"
          using False Rejected True
          by (subst exportLoop.simps) (simp add: Let_def step_def e2_def)
        ultimately show ?thesis using b2 False by simp
      next
        case False404: False
        with False Rejected show ?thesis by (simp add: exportLoop.simps [of jobId apiClient timeout k] Let_def step_def)
      qed
    next
      case (ProcessExit code)
      with False show ?thesis by (simp add: exportLoop.simps [of jobId apiClient timeout k] Let_def step_def)
    qed
  qed
qed

lemma importLoop_timeout_late:
  "pr_outcome (importLoop jobId apiClient timeout k elapsed fetches log) = Thrown AtTimeoutCheck e
   \<Longrightarrow> timeout * 1000 < pr_elapsed (importLoop jobId apiClient timeout k elapsed fetches log)
     \<and> e = Error (''Import job timed out after '' @ showNat timeout @ '' seconds'')"
proof (induction jobId apiClient timeout k elapsed fetches log rule: importLoop.induct)
  case (1 jobId apiClient timeout k elapsed fetches log)
  show ?case
  proof (cases "elapsed > timeout * 1000")
    case True
    with "1.prems" show ?thesis by (simp add: importLoop.simps)
  next
    case False
    with "1.prems" "1.IH" show ?thesis
      by (subst (asm) importLoop.simps, subst importLoop.simps)
         (auto simp: Let_def split: call.splits if_splits decision.splits)
  qed
qed

lemma importLoop_fetch_times:
  "list_all (\<lambda>t. t \<le> timeout * 1000) fetches \<Longrightarrow>
   list_all (\<lambda>t. t \<le> timeout * 1000) (pr_fetches (importLoop jobId apiClient timeout k elapsed fetches log))"
proof (induction jobId apiClient timeout k elapsed fetches log rule: importLoop.induct)
  case (1 jobId apiClient timeout k elapsed fetches log)
  show ?case
  proof (cases "elapsed > timeout * 1000")
    case True
    with "1.prems" show ?thesis by (simp add: importLoop.simps)
  next
    case False
    with "1.prems" "1.IH" show ?thesis
      by (subst importLoop.simps)
         (auto simp: Let_def split: call.splits if_splits decision.splits)
  qed
qed

lemma importLoop_fetch_count:
  "length (pr_fetches (importLoop jobId apiClient timeout k elapsed fetches log))
     \<le> length fetches + (if elapsed > timeout * 1000 then 0 else (timeout * 1000 - elapsed) div 2000 + 1)"
proof (induction jobId apiClient timeout k elapsed fetches log rule: importLoop.induct)
  case (1 jobId apiClient timeout k elapsed fetches log)
  show ?case
  proof (cases "elapsed > timeout * 1000")
    case True
    then show ?thesis by (simp add: importLoop.simps)
  next
    case False
    define step where "step = apiClient jobId k"
    define e2 where "e2 = elapsed + fetch_ms step + 2000 + timer_late_ms step"
    define e5 where "e5 = elapsed + fetch_ms step + 5000 + timer_late_ms step"
    have b2: "(if e2 > timeout * 1000 then 0 else (timeout * 1000 - e2) div 2000 + 1)
        \<le> (timeout * 1000 - elapsed) div 2000"
      by (rule poll_budget_step [OF False]) (simp add: e2_def)
    have b5: "(if e5 > timeout * 1000 then 0 else (timeout * 1000 - e5) div 2000 + 1)
        \<le> (timeout * 1000 - elapsed) div 2000"
      by (rule poll_budget_step [OF False]) (simp add: e5_def)
    show ?thesis
    proof (cases "response step")
      case (Resolved status)
      show ?thesis
      proof (cases "importDecision status")
        case KeepWaiting
        have "length (pr_fetches (importLoop jobId apiClient timeout (Suc k) e5 (fetches @ [elapsed])
                 (log @ [LogJobStatus (st_status status)])))
              \<le> length (fetches @ [elapsed]) + (if e5 > timeout * 1000 then 0 else (timeout * 1000 - e5) div 2000 + 1)"
          unfolding e5_def step_def
          by (rule "1.IH"(1) [OF False refl refl refl _ KeepWaiting]) (use Resolved in \<open>simp add: step_def\<close>)
        moreover have "importLoop jobId apiClient timeout k elapsed fetches log =
            importLoop jobId apiClient timeout (Suc k) e5 (fetches @ [elapsed])
                 (log @ [LogJobStatus (st_status status)])"
          using False Resolved KeepWaiting
          by (subst importLoop.simps) (simp add: Let_def step_def e5_def)
        ultimately show ?thesis using b5 False by simp
      qed (use False Resolved in \<open>simp_all add: importLoop.simps [of jobId apiClient timeout k] Let_def step_def\<close>)
    next
      case (Rejected error)
      show ?thesis
      proof (cases "response_status error = Some 404")
        case True
        have "length (pr_fetches (importLoop jobId apiClient timeout (Suc k) e2 (fetches @ [elapsed])
                 (log @ [LogWarning ''Import job not found yet, waiting...''])))
              \<le> length (fetches @ [elapsed]) + (if e2 > timeout * 1000 then 0 else (timeout * 1000 - e2) div 2000 + 1)"
          unfolding e2_def step_def
          by (rule "1.IH"(2) [OF False refl refl refl _ True]) (use Rejected in \<open>simp add: step_def\<close>)
        moreover have "importLoop jobId apiClient timeout k elapsed fetches log =
            importLoop jobId apiClient timeout (Suc k) e2 (fetches @ [elapsed])
                 (log @ [LogWarning ''Import job not found yet, waiting...''])"
          using False Rejected True
          by (subst importLoop.simps) (simp add: Let_def step_def e2_def)
        ultimately show ?thesis using b2 False by simp
      next
        case False404: False
        with False Rejected show ?thesis by (simp add: importLoop.simps [of jobId apiClient timeout k] Let_def step_def)
      qed
    next
      case (ProcessExit code)
      with False show ?thesis by (simp add: importLoop.simps [of jobId apiClient timeout k] Let_def step_def)
    qed
  qed
qed

lemma objectsOf_st_status [simp]: "objectsOf (status\<lparr>st_status := s\<rparr>) = objectsOf status"
  by (simp add: objectsOf_def)





lemma exportLoop_fetch_prefix_gen:
  "take (length fetches) (pr_fetches (exportLoop jobId apiClient timeout k elapsed fetches log)) = fetches"
proof (induction jobId apiClient timeout k elapsed fetches log rule: exportLoop.induct)
  case (1 jobId apiClient timeout k elapsed fetches log)
  show ?case
  proof (cases "elapsed > timeout * 1000")
    case True
    then show ?thesis by (simp add: exportLoop.simps)
  next
    case False
    have cut: "take (length fetches) r = fetches" if "take (length (fetches @ [elapsed])) r = fetches @ [elapsed]" for r
    proof -
      have "take (length fetches) r = take (length fetches) (take (length (fetches @ [elapsed])) r)"
        by simp
      also have "\<dots> = fetches" by (simp only: that) simp
      finally show ?thesis .
    qed
    from False "1.IH" show ?thesis
      by (subst exportLoop.simps)
         (auto simp: Let_def simp del: length_append take_append split: call.splits decision.splits intro!: cut)
  qed
qed

lemma exportLoop_fetch_prefix:
  "\<not> elapsed > timeout * 1000 \<Longrightarrow>
   take (Suc (length fetches)) (pr_fetches (exportLoop jobId apiClient timeout k elapsed fetches log))
     = fetches @ [elapsed]"
proof -
  assume ok: "\<not> elapsed > timeout * 1000"
  have g: "take (length (fetches @ [elapsed])) (pr_fetches (exportLoop jobId apiClient timeout k' e' (fetches @ [elapsed]) log'))
        = fetches @ [elapsed]" for k' e' log'
    by (rule exportLoop_fetch_prefix_gen)
  from ok show ?thesis
    using g by (subst exportLoop.simps) (auto simp: Let_def split: call.splits decision.splits)
qed

lemma importLoop_fetch_prefix_gen:
  "take (length fetches) (pr_fetches (importLoop jobId apiClient timeout k elapsed fetches log)) = fetches"
proof (induction jobId apiClient timeout k elapsed fetches log rule: importLoop.induct)
  case (1 jobId apiClient timeout k elapsed fetches log)
  show ?case
  proof (cases "elapsed > timeout * 1000")
    case True
    then show ?thesis by (simp add: importLoop.simps)
  next
    case False
    have cut: "take (length fetches) r = fetches" if "take (length (fetches @ [elapsed])) r = fetches @ [elapsed]" for r
    proof -
      have "take (length fetches) r = take (length fetches) (take (length (fetches @ [elapsed])) r)"
        by simp
      also have "\<dots> = fetches" by (simp only: that) simp
      finally show ?thesis .
    qed
    from False "1.IH" show ?thesis
      by (subst importLoop.simps)
         (auto simp: Let_def simp del: length_append take_append split: call.splits decision.splits intro!: cut)
  qed
qed

lemma importLoop_fetch_prefix:
  "\<not> elapsed > timeout * 1000 \<Longrightarrow>
   take (Suc (length fetches)) (pr_fetches (importLoop jobId apiClient timeout k elapsed fetches log))
     = fetches @ [elapsed]"
proof -
  assume ok: "\<not> elapsed > timeout * 1000"
  have g: "take (length (fetches @ [elapsed])) (pr_fetches (importLoop jobId apiClient timeout k' e' (fetches @ [elapsed]) log'))
        = fetches @ [elapsed]" for k' e' log'
    by (rule importLoop_fetch_prefix_gen)
  from ok show ?thesis
    using g by (subst importLoop.simps) (auto simp: Let_def split: call.splits decision.splits)
qed

text \<open>
  The loop itself retries a rejection that carries the status 404 after two seconds and
  rethrows every other rejection; the API client never lets a rejection through.
\<close>

lemma exportLoop_not_found_retried:
  assumes "\<not> elapsed > timeout * 1000"
    and "response (apiClient jobId k) = Rejected error"
  shows "exportLoop jobId apiClient timeout k elapsed fetches log =
           (if response_status error = Some 404
            then exportLoop jobId apiClient timeout (Suc k)
                   (elapsed + fetch_ms (apiClient jobId k) + 2000 + timer_late_ms (apiClient jobId k))
                   (fetches @ [elapsed]) (log @ [LogWarning ''Export job not found yet, waiting...''])
            else \<lparr>pr_outcome = Thrown Rethrown error,
                  pr_elapsed = elapsed + fetch_ms (apiClient jobId k),
                  pr_fetches = fetches @ [elapsed], pr_log = log\<rparr>)"
  using assms by (subst exportLoop.simps) (simp add: Let_def)

lemma getExportJobStatus_never_rejects:
  "response (getExportJobStatus axios jobId k) \<noteq> Rejected error"
  by (simp add: getExportJobStatus_def ApiClient_get_def Let_def split: http_reply.splits)

section \<open>Lemmas on lines and files\<close>












section \<open>Lemmas on the download loop\<close>


lemma downloadObject_events:
  "downloadObject env path opts b obj = (evs, ex) \<Longrightarrow> ev \<in> set evs \<Longrightarrow> objectOf ev = Some obj"
  by (auto simp: downloadObject_def Let_def split: if_splits call.splits option.splits)

lemma downloadLoop_events:
  "downloadLoop env path opts b objs = (evs, ex) \<Longrightarrow> ev \<in> set evs
   \<Longrightarrow> \<exists>obj \<in> set objs. objectOf ev = Some obj"
proof (induction objs arbitrary: evs ex)
  case Nil
  then show ?case by simp
next
  case (Cons obj rest)
  obtain e1 x1 where o: "downloadObject env path opts b obj = (e1, x1)" by force
  obtain e2 x2 where l: "downloadLoop env path opts b rest = (e2, x2)" by force
  from Cons.prems o l have "ev \<in> set e1 \<or> ev \<in> set e2"
    by (auto split: option.splits)
  then show ?case
  proof
    assume "ev \<in> set e1"
    with o show ?thesis by (auto dest: downloadObject_events)
  next
    assume "ev \<in> set e2"
    with Cons.IH [OF l] show ?thesis by auto
  qed
qed







section \<open>Lemmas on the example runtime\<close>


lemma plainString_quote: "plainString s \<Longrightarrow> quote \<notin> set s"
  by (auto simp: plainString_def list_all_iff quote_def escapedUnits_def)

lemma digit_cases: "d < 10 \<Longrightarrow> d = 0 \<or> d = 1 \<or> d = 2 \<or> d = 3 \<or> d = 4 \<or> d = 5 \<or> d = 6 \<or> d = 7 \<or> d = 8 \<or> d = (9::nat)"
  by arith

lemma digitUnit_isDigit: "d < 10 \<Longrightarrow> isDigit (digitUnit d)"
  using digit_cases [of d] by (auto simp: isDigit_def digitUnit_def)

lemma digitValue_digitUnit: "d < 10 \<Longrightarrow> digitValue (digitUnit d) = d"
  using digit_cases [of d] by (auto simp: digitValue_def digitUnit_def)

lemma showNat_digits: "list_all isDigit (showNat n) \<and> showNat n \<noteq> []"
proof (induction n rule: showNat.induct)
  case (1 n)
  show ?case
  proof (cases "n < 10")
    case True
    then show ?thesis by (subst showNat.simps, subst showNat.simps) (simp add: digitUnit_isDigit)
  next
    case False
    with 1 show ?thesis
      by (subst showNat.simps, subst showNat.simps) (simp add: digitUnit_isDigit)
  qed
qed

lemma readNat_snoc: "readNat (ds @ [d]) = 10 * readNat ds + digitValue d"
  by (simp add: readNat_def)

lemma readNat_showNat: "readNat (showNat n) = n"
proof (induction n rule: showNat.induct)
  case (1 n)
  show ?case
  proof (cases "n < 10")
    case True
    then show ?thesis by (subst showNat.simps) (simp add: readNat_def digitValue_digitUnit)
  next
    case False
    with 1 show ?thesis
      by (subst showNat.simps) (simp add: readNat_snoc digitValue_digitUnit)
  qed
qed

lemma digits_then_rest:
  assumes "list_all isDigit ds" "rest = [] \<or> \<not> isDigit (hd rest)"
  shows "takeWhile isDigit (ds @ rest) = ds" "dropWhile isDigit (ds @ rest) = rest"
proof -
  have a: "takeWhile isDigit rest = []" and b: "dropWhile isDigit rest = rest"
    using assms(2) by (cases rest; simp)+
  show "takeWhile isDigit (ds @ rest) = ds" "dropWhile isDigit (ds @ rest) = rest"
    using assms(1) a b by (simp_all add: list_all_iff)
qed

lemma until_quote:
  assumes "quote \<notin> set s"
  shows "takeWhile (\<lambda>d. d \<noteq> quote) (s @ quote # rest) = s"
    "dropWhile (\<lambda>d. d \<noteq> quote) (s @ quote # rest) = quote # rest"
  using assms by (induction s) auto

lemma printed_first: "\<exists>c cs. exampleStringify v = c # cs \<and> opener c"
proof (cases v)
  case (JNum n)
  obtain d ds where "showNat n = d # ds" using showNat_digits [of n] by (cases "showNat n") auto
  moreover from this have "isDigit d" using showNat_digits [of n] by simp
  ultimately show ?thesis using JNum by (simp add: opener_def)
qed (auto simp: opener_def quote_def)

lemma opener_not_closer: "opener c \<Longrightarrow> c \<noteq> CHR '']'' \<and> c \<noteq> CHR ''}'' \<and> c \<noteq> CHR '',''"
  by (auto simp: opener_def isDigit_def quote_def)

lemma parseItems_printed:
  assumes "items \<noteq> []" "list_all readsBack items"
    and "length (joinWith (CHR '','') (map exampleStringify items)) < length fuel"
  shows "parseItems fuel (joinWith (CHR '','') (map exampleStringify items) @ CHR '']'' # rest)
           = Some (items, rest)"
  using assms
proof (induction items arbitrary: fuel)
  case Nil
  then show ?case by simp
next
  case (Cons v vs)
  obtain x f where fuel: "fuel = x # f" using Cons.prems(3) by (cases fuel) auto
  from Cons.prems(2) have rv: "readsBack v" by simp
  show ?case
  proof (cases vs)
    case Nil
    have "parseValue f (exampleStringify v @ CHR '']'' # rest) = Some (v, CHR '']'' # rest)"
      using rv Cons.prems(3) Nil fuel by (simp add: readsBack_def isDigit_def)
    then show ?thesis using Nil fuel by simp
  next
    case (Cons w ws)
    let ?tail = "joinWith (CHR '','') (map exampleStringify vs) @ CHR '']'' # rest"
    have shape: "joinWith (CHR '','') (map exampleStringify (v # vs)) @ CHR '']'' # rest
        = exampleStringify v @ CHR '','' # ?tail"
      using Cons by simp
    have len: "length (exampleStringify v) \<le> length f"
      and len': "length (joinWith (CHR '','') (map exampleStringify vs)) < length f"
      using Cons.prems(3) Cons fuel by simp_all
    have "parseValue f (exampleStringify v @ CHR '','' # ?tail) = Some (v, CHR '','' # ?tail)"
      using rv len by (simp add: readsBack_def isDigit_def)
    moreover have "parseItems f ?tail = Some (vs, rest)"
      using Cons.IH [of f] Cons.prems(2) len' Cons by simp
    ultimately show ?thesis unfolding shape fuel by simp
  qed
qed

lemma parseMembers_printed:
  assumes "props \<noteq> []" "list_all (\<lambda>(k, v). plainString k \<and> readsBack v) props"
    and "length (joinWith (CHR '','') (map printMember props)) < length fuel"
  shows "parseMembers fuel (joinWith (CHR '','') (map printMember props) @ CHR ''}'' # rest)
           = Some (props, rest)"
  using assms
proof (induction props arbitrary: fuel)
  case Nil
  then show ?case by simp
next
  case (Cons p ps)
  obtain k v where p: "p = (k, v)" by (cases p)
  obtain x f where fuel: "fuel = x # f" using Cons.prems(3) by (cases fuel) auto
  from Cons.prems(2) p have rv: "readsBack v" and pk: "quote \<notin> set k"
    by (simp_all add: plainString_quote)
  have key: "takeWhile (\<lambda>d. d \<noteq> quote) (k @ quote # r) = k"
            "dropWhile (\<lambda>d. d \<noteq> quote) (k @ quote # r) = quote # r" for r
    using until_quote [OF pk] by simp_all
  show ?case
  proof (cases ps)
    case Nil
    have shape: "joinWith (CHR '','') (map printMember (p # ps)) @ CHR ''}'' # rest
        = quote # k @ quote # CHR '':'' # exampleStringify v @ CHR ''}'' # rest"
      using Nil p by (simp add: printMember_def quote_def)
    have len: "length (exampleStringify v) \<le> length f"
      using Cons.prems(3) Nil p fuel by (simp add: printMember_def)
    have "parseValue f (exampleStringify v @ CHR ''}'' # rest) = Some (v, CHR ''}'' # rest)"
      using rv len by (simp add: readsBack_def isDigit_def)
    then show ?thesis unfolding shape fuel using p Nil by (simp add: key)
  next
    case (Cons q qs)
    let ?tail = "joinWith (CHR '','') (map printMember ps) @ CHR ''}'' # rest"
    have shape: "joinWith (CHR '','') (map printMember (p # ps)) @ CHR ''}'' # rest
        = quote # k @ quote # CHR '':'' # exampleStringify v @ CHR '','' # ?tail"
      using Cons p by (simp add: printMember_def quote_def)
    have len: "length (exampleStringify v) \<le> length f"
      and len': "length (joinWith (CHR '','') (map printMember ps)) < length f"
      using Cons.prems(3) Cons p fuel by (simp_all add: printMember_def)
    have "parseValue f (exampleStringify v @ CHR '','' # ?tail) = Some (v, CHR '','' # ?tail)"
      using rv len by (simp add: readsBack_def isDigit_def)
    moreover have "parseMembers f ?tail = Some (ps, rest)"
      using Cons.IH [of f] Cons.prems(2) len' Cons by simp
    ultimately show ?thesis unfolding shape fuel using p by (simp add: key)
  qed
qed

lemma digit_not_letter:
  "isDigit c \<Longrightarrow> c \<noteq> CHR ''n'' \<and> c \<noteq> CHR ''t'' \<and> c \<noteq> CHR ''f'' \<and> c \<noteq> CHR ''['' \<and> c \<noteq> CHR ''{'' \<and> c \<noteq> quote"
  by (auto simp: isDigit_def quote_def)

lemma plain_readsBack: "plain v \<Longrightarrow> readsBack v"
proof (induction v)
  case JNull
  show ?case unfolding readsBack_def
  proof (intro allI impI)
    fix fuel rest :: string
    assume "length (exampleStringify JNull) \<le> length fuel"
    then obtain x f where "fuel = x # f" by (cases fuel) auto
    then show "parseValue fuel (exampleStringify JNull @ rest) = Some (JNull, rest)" by simp
  qed
next
  case (JBool b)
  show ?case unfolding readsBack_def
  proof (intro allI impI)
    fix fuel rest :: string
    assume "length (exampleStringify (JBool b)) \<le> length fuel"
    then obtain x f where "fuel = x # f" by (cases fuel; cases b) auto
    then show "parseValue fuel (exampleStringify (JBool b) @ rest) = Some (JBool b, rest)"
      by (cases b) simp_all
  qed
next
  case (JNum n)
  show ?case unfolding readsBack_def
  proof (intro allI impI)
    fix fuel rest :: string
    assume l: "length (exampleStringify (JNum n)) \<le> length fuel"
      and r: "rest = [] \<or> \<not> isDigit (hd rest)"
    obtain d ds where sn: "showNat n = d # ds" using showNat_digits [of n] by (cases "showNat n") auto
    then have dd: "isDigit d" using showNat_digits [of n] by simp
    from l sn obtain x f where fuel: "fuel = x # f" by (cases fuel) auto
    have tk: "takeWhile isDigit (showNat n @ rest) = showNat n"
      and dr: "dropWhile isDigit (showNat n @ rest) = rest"
      using digits_then_rest [OF _ r, of "showNat n"] showNat_digits [of n] by simp_all
    have "parseValue (x # f) (d # ds @ rest)
        = Some (JNum (readNat (takeWhile isDigit (d # ds @ rest))), dropWhile isDigit (d # ds @ rest))"
      using dd digit_not_letter [OF dd] by simp
    then show "parseValue fuel (exampleStringify (JNum n) @ rest) = Some (JNum n, rest)"
      using tk dr sn fuel readNat_showNat [of n]
      by (simp del: parseValue.simps takeWhile.simps dropWhile.simps)
  qed
next
  case (JStr s)
  then have q: "quote \<notin> set s" by (simp add: plainString_quote)
  show ?case unfolding readsBack_def
  proof (intro allI impI)
    fix fuel rest :: string
    assume "length (exampleStringify (JStr s)) \<le> length fuel"
    then obtain x f where "fuel = x # f" by (cases fuel) auto
    then show "parseValue fuel (exampleStringify (JStr s) @ rest) = Some (JStr s, rest)"
      using until_quote [OF q, of rest] by (simp add: quote_def)
  qed
next
  case (JArr items)
  then have all: "list_all readsBack items" by (simp add: list_all_iff)
  show ?case unfolding readsBack_def
  proof (intro allI impI)
    fix fuel rest :: string
    assume l: "length (exampleStringify (JArr items)) \<le> length fuel"
    then obtain x f where fuel: "fuel = x # f" by (cases fuel) auto
    show "parseValue fuel (exampleStringify (JArr items) @ rest) = Some (JArr items, rest)"
    proof (cases items)
      case Nil
      then show ?thesis using fuel by simp
    next
      case (Cons v vs)
      obtain c cs where first: "exampleStringify v = c # cs" "opener c"
        using printed_first [of v] by blast
      let ?body = "joinWith (CHR '','') (map exampleStringify items)"
      have body: "\<exists>bs. ?body = c # bs"
        using Cons first by (cases vs) simp_all
      then obtain bs where bs: "?body = c # bs" by blast
      have c: "c \<noteq> CHR '']''" using opener_not_closer [OF first(2)] by simp
      have len: "length ?body < length f" using l fuel by simp
      have items: "parseItems f (?body @ CHR '']'' # rest) = Some (items, rest)"
        by (rule parseItems_printed [OF _ all len]) (simp add: Cons)
      have "parseValue (x # f) (CHR ''['' # ?body @ CHR '']'' # rest) = Some (JArr items, rest)"
        using items c unfolding bs by (simp add: quote_def)
      then show ?thesis using fuel by simp
    qed
  qed
next
  case (JObj props)
  have all: "list_all (\<lambda>(k, v). plainString k \<and> readsBack v) props"
    using JObj by (fastforce simp: list_all_iff)
  show ?case unfolding readsBack_def
  proof (intro allI impI)
    fix fuel rest :: string
    assume l: "length (exampleStringify (JObj props)) \<le> length fuel"
    then obtain x f where fuel: "fuel = x # f" by (cases fuel) auto
    have pr: "exampleStringify (JObj props) = CHR ''{'' # joinWith (CHR '','') (map printMember props) @ ''}''"
      by (simp add: printMember_def)
    show "parseValue fuel (exampleStringify (JObj props) @ rest) = Some (JObj props, rest)"
    proof (cases props)
      case Nil
      then show ?thesis using fuel by simp
    next
      case (Cons p ps)
      let ?body = "joinWith (CHR '','') (map printMember props)"
      obtain bs where bs: "?body = quote # bs"
        using Cons by (cases p; cases ps) (simp_all add: printMember_def quote_def)
      have len: "length ?body < length f" using l fuel unfolding pr by simp
      have members: "parseMembers f (?body @ CHR ''}'' # rest) = Some (props, rest)"
        by (rule parseMembers_printed [OF _ all len]) (simp add: Cons)
      have "parseValue (x # f) (CHR ''{'' # ?body @ CHR ''}'' # rest) = Some (JObj props, rest)"
        using members unfolding bs by (simp add: quote_def)
      then show ?thesis using fuel unfolding pr by simp
    qed
  qed
qed

lemma exampleParse_printed: "plain v \<Longrightarrow> exampleParse (exampleStringify v) = Some v"
proof -
  assume "plain v"
  then have "readsBack v" by (rule plain_readsBack)
  then have "parseValue (CHR ''.'' # exampleStringify v) (exampleStringify v @ []) = Some (v, [])"
    unfolding readsBack_def by (simp del: parseValue.simps)
  then show ?thesis by (simp add: exampleParse_def del: parseValue.simps)
qed








section \<open>Evaluation of the examples\<close>

lemmas lower_eval = toLowerCase_def lowerUnit_def upperUnits_def lowerUnits_def

lemmas loop_eval = exportLoop.simps importLoop.simps Let_def steadyClient_def twoPhaseClient_def
  statusOf_def exportDecision_def importDecision_def objectsOf_def handleJobFailure_def
  showNat.simps digitUnit_def

lemmas json_eval = exampleJSON_def exampleRecords_def exampleMeta_def exampleFiles_def
  showNat.simps digitUnit_def newline_def quote_def

lemmas download_eval = downloadResults_def downloadObject_def Let_def isRequested_def truthy_def
  completedWithFile_def hasFile_def outputPathFor_def inOutputDir_def jobIdOrUnknown_def
  baseExtension_def exampleEnv_def examplePath_def exampleOptions_def statusOf_def
  productObject_def bundleObject_def usageObject_def emptyObject_def brokenObject_def
  noRecordsErrors_def

lemma exportedContent_lines:
  "nonBlankLines exportedContent = exampleStringify exampleMeta # map exampleStringify exampleRecords"
proof -
  have "split newline exportedContent = map exampleStringify (exampleMeta # exampleRecords) @ [[]]"
    by (simp add: exportedContent_def json_eval)
  then show ?thesis
    unfolding nonBlankLines_def by (simp add: json_eval trim_def isWhiteSpace_def)
qed

lemma example_values_plain:
  "list_all plain exampleRecords" "plain (JArr exampleRecords)" "plain exampleMeta"
  by (simp_all add: exampleRecords_def exampleMeta_def plainString_def escapedUnits_def)

section \<open>C1: a failed export status with a usable object resolves\<close>



section \<open>C2: staging a JSON array and reading it back\<close>




section \<open>C3: one file per completed object\<close>


text \<open>
  The path of an individual file is built from the lowercased name of the object alone, so
  two objects whose names differ in casing only share one file.
\<close>

lemma same_name_same_file:
  "map (\<lambda>(obj, p, d). p)
     (writesOf (fst (downloadResults exampleEnv examplePath (exampleOptions (Some ''product'') None)
        (statusOf ''Completed'' [productObject, productObject\<lparr>obj_name := ''PRODUCT''\<rparr>, bundleObject]))))
   = [''product-job-42.jsonl'', ''product-job-42.jsonl'']"
  by (simp add: download_eval lower_eval)



section \<open>C4: the message of the job failure\<close>

text \<open>
  Claim C4. When every object of a failed status is a genuine failure the poller throws, and
  the message of the thrown error should include the job id. The poller does throw, but the
  error comes from \<open>handleJobFailure\<close>, which is not given the job id: for the job
  \<open>job-42\<close> the message is \<open>Job failed\<close>, and the job id does not occur in it.
\<close>

theorem job_failure_message_without_job_id:
  "pr_outcome (waitForExportCompletion ''job-42''
       (steadyClient 100 (statusOf ''Failed'' [brokenObject])) 300)
     = Thrown AtJobFailure (Error ''Job failed'')
   \<and> \<not> str_includes ''Job failed'' ''job-42''"
  by (simp add: waitForExportCompletion_def loop_eval lower_eval isCompleted_def isNoRecords_def
        noRecordsErrors_def brokenObject_def)

section \<open>C5: restaging an exported file\<close>

text \<open>
  \<open>filePath.replace('.jsonl', '-import.jsonl')\<close> replaces the first occurrence, which may
  lie in a directory name. The import file of \<open>exports.jsonl.d/product.jsonl\<close> is then
  \<open>exports-import.jsonl.d/product.jsonl\<close>, in a directory that does not exist: the write
  throws and the process ends with code 1.
\<close>

lemma restage_into_missing_directory:
  "convertExportedFileToImportFormat exampleJSON exampleFiles ''exports.jsonl.d/product.jsonl'' ''Product''
     = Exit 1"
proof -
  have src: "readFileSync exampleFiles ''exports.jsonl.d/product.jsonl'' = Some exportedContent"
    by (simp add: exampleFiles_def)
  have first: "parse exampleJSON (exampleStringify exampleMeta) = Some exampleMeta"
    using exampleParse_printed [OF example_values_plain(3)] by (simp add: exampleJSON_def)
  have name: "objectNameOf exampleMeta ''Product'' = Some ''Product''"
    by (simp add: objectNameOf_def exampleMeta_def)
  have p: "replaceFirst ''exports.jsonl.d/product.jsonl'' ''.jsonl'' ''-import.jsonl''
             = ''exports-import.jsonl.d/product.jsonl''"
    by simp
  have wr: "\<not> writable exampleFiles ''exports-import.jsonl.d/product.jsonl''"
    by (simp add: exampleFiles_def)
  show ?thesis
    using src first name wr
    by (simp add: convertExportedFileToImportFormat_def Let_def exportedContent_lines p
        fs_writeFileSync_def handleFileError_def del: replaceFirst.simps exampleStringify.simps)
qed



section \<open>C6: the casing of the status\<close>




section \<open>C7: a status request answered with 404\<close>

text \<open>
  Claim C7. A status request that fails with 404 should make the poller wait two seconds
  and retry. The loop has that branch, but the status request goes through
  \<open>ApiClient.get\<close>, which catches the rejection itself and ends the process: with a
  server that answers the first request with 404 and would answer the next one with
  \<open>Completed\<close>, the run ends with exit code 1 after the first request; nothing is retried.
\<close>

theorem not_found_ends_process:
  "waitForExportCompletion ''job-42''
     (getExportJobStatus (notFoundAtFirst (statusOf ''Completed'' [productObject]))) 300
   = \<lparr>pr_outcome = Exited 1, pr_elapsed = 120, pr_fetches = [0],
      pr_log = [LogProgress ''Waiting for export job completion...'']\<rparr>"
  by (simp add: waitForExportCompletion_def loop_eval getExportJobStatus_def ApiClient_get_def
        notFoundAtFirst_def handleApiError_def)

section \<open>C8: a file with an unknown prefix\<close>

text \<open>
  Claim C8. The batcher should skip, with a warning, a file whose prefix is no recognized
  object type. It skips a file when \<open>getFieldName\<close> returns a falsy value, but
  \<open>getFormFieldName\<close> falls back to the lowercased prefix for every prefix that is not in
  its table: the file \<open>foo-123-import.jsonl\<close> is appended under the field \<open>foo\<close> and
  logged as added, although \<open>foo\<close> is not in the table.
\<close>

theorem unknown_prefix_not_skipped:
  "createMultiFileFormData [''/tmp/foo-123-import.jsonl'', ''/tmp/pricebook-123-import.jsonl'']
     getFormFieldName
   = \<lparr>parts = [(''foo'', ''/tmp/foo-123-import.jsonl'', ''foo-123-import.jsonl''),
               (''priceBook'', ''/tmp/pricebook-123-import.jsonl'', ''pricebook-123-import.jsonl'')],
      form_log = [Adding ''foo'' ''foo-123-import.jsonl'',
                  Adding ''pricebook'' ''pricebook-123-import.jsonl'']\<rparr>
   \<and> map_of fieldMap ''foo'' = None"
  by (simp add: createMultiFileFormData_def getFormFieldName_def fieldMap_def basename_def
        Let_def lower_eval)

section \<open>C9: the timeout\<close>

text \<open>
  The check is \<open>Date.now() - startTime > timeoutMs\<close>: with a timeout of 6 seconds, a check
  made when exactly 6000 milliseconds have elapsed raises nothing, and one more status
  request is issued at that moment. With a timeout of 0 seconds the first check, at 0
  milliseconds, raises nothing either, and the run returns the completed status.
\<close>

theorem poll_at_exact_timeout:
  "pr_fetches (waitForExportCompletion ''job-42''
       (twoPhaseClient 1000 (statusOf ''Processing'' []) (statusOf ''Completed'' [productObject])) 6)
     = [0, 6000]
   \<and> pr_outcome (waitForExportCompletion ''job-42''
       (twoPhaseClient 1000 (statusOf ''Processing'' []) (statusOf ''Completed'' [productObject])) 6)
     = Returned (statusOf ''Completed'' [productObject])
   \<and> (6000::nat) \<ge> 6 * 1000
   \<and> waitForExportCompletion ''job-42'' (steadyClient 300 (statusOf ''Completed'' [productObject])) 0
     = \<lparr>pr_outcome = Returned (statusOf ''Completed'' [productObject]), pr_elapsed = 300,
        pr_fetches = [0],
        pr_log = [LogProgress ''Waiting for export job completion...'',
                  LogSuccess ''Export job completed successfully!'']\<rparr>"
  by (simp add: waitForExportCompletion_def loop_eval lower_eval)

text \<open>
  Claim C9, as amended. At the head of every loop iteration, of the export and of the
  import poller, the timeout error is raised if the elapsed time is strictly greater than
  the configured timeout, and otherwise a status request is issued. Hence a run that ends
  with the timeout error ends later than the timeout, no status request is issued once
  the elapsed time exceeds the timeout, and a run issues at most
  \<open>timeout * 1000 div 2000 + 1\<close> requests, so that it never polls on indefinitely: the loop
  is a total function.
\<close>

theorem polling_timeout:
  "(elapsed > timeout * 1000 \<longrightarrow>
      exportLoop jobId apiClient timeout k elapsed fetches log =
        \<lparr>pr_outcome = Thrown AtTimeoutCheck
           (Error (''Export job timed out after '' @ showNat timeout @ '' seconds'')),
         pr_elapsed = elapsed, pr_fetches = fetches, pr_log = log\<rparr>)
   \<and> (\<not> elapsed > timeout * 1000 \<longrightarrow>
      take (Suc (length fetches)) (pr_fetches (exportLoop jobId apiClient timeout k elapsed fetches log))
        = fetches @ [elapsed])
   \<and> (\<forall>e. pr_outcome (waitForExportCompletion jobId apiClient timeout) = Thrown AtTimeoutCheck e
        \<longrightarrow> pr_elapsed (waitForExportCompletion jobId apiClient timeout) > timeout * 1000)
   \<and> list_all (\<lambda>t. t \<le> timeout * 1000) (pr_fetches (waitForExportCompletion jobId apiClient timeout))
   \<and> length (pr_fetches (waitForExportCompletion jobId apiClient timeout)) \<le> timeout * 1000 div 2000 + 1
   \<and> (elapsed > timeout * 1000 \<longrightarrow>
      importLoop jobId apiClient timeout k elapsed fetches log =
        \<lparr>pr_outcome = Thrown AtTimeoutCheck
           (Error (''Import job timed out after '' @ showNat timeout @ '' seconds'')),
         pr_elapsed = elapsed, pr_fetches = fetches, pr_log = log\<rparr>)
   \<and> (\<not> elapsed > timeout * 1000 \<longrightarrow>
      take (Suc (length fetches)) (pr_fetches (importLoop jobId apiClient timeout k elapsed fetches log))
        = fetches @ [elapsed])
   \<and> (\<forall>e. pr_outcome (waitForImportCompletion jobId apiClient timeout) = Thrown AtTimeoutCheck e
        \<longrightarrow> pr_elapsed (waitForImportCompletion jobId apiClient timeout) > timeout * 1000)
   \<and> list_all (\<lambda>t. t \<le> timeout * 1000) (pr_fetches (waitForImportCompletion jobId apiClient timeout))
   \<and> length (pr_fetches (waitForImportCompletion jobId apiClient timeout)) \<le> timeout * 1000 div 2000 + 1"
proof -
  have e1: "elapsed > timeout * 1000 \<longrightarrow>
      exportLoop jobId apiClient timeout k elapsed fetches log =
        \<lparr>pr_outcome = Thrown AtTimeoutCheck
           (Error (''Export job timed out after '' @ showNat timeout @ '' seconds'')),
         pr_elapsed = elapsed, pr_fetches = fetches, pr_log = log\<rparr>"
    by (simp add: exportLoop.simps)
  have i1: "elapsed > timeout * 1000 \<longrightarrow>
      importLoop jobId apiClient timeout k elapsed fetches log =
        \<lparr>pr_outcome = Thrown AtTimeoutCheck
           (Error (''Import job timed out after '' @ showNat timeout @ '' seconds'')),
         pr_elapsed = elapsed, pr_fetches = fetches, pr_log = log\<rparr>"
    by (simp add: importLoop.simps)
  have e2: "\<not> elapsed > timeout * 1000 \<longrightarrow>
      take (Suc (length fetches)) (pr_fetches (exportLoop jobId apiClient timeout k elapsed fetches log))
        = fetches @ [elapsed]"
    by (simp add: exportLoop_fetch_prefix)
  have i2: "\<not> elapsed > timeout * 1000 \<longrightarrow>
      take (Suc (length fetches)) (pr_fetches (importLoop jobId apiClient timeout k elapsed fetches log))
        = fetches @ [elapsed]"
    by (simp add: importLoop_fetch_prefix)
  have e3: "\<forall>e. pr_outcome (waitForExportCompletion jobId apiClient timeout) = Thrown AtTimeoutCheck e
        \<longrightarrow> pr_elapsed (waitForExportCompletion jobId apiClient timeout) > timeout * 1000"
    unfolding waitForExportCompletion_def using exportLoop_timeout_late by blast
  have i3: "\<forall>e. pr_outcome (waitForImportCompletion jobId apiClient timeout) = Thrown AtTimeoutCheck e
        \<longrightarrow> pr_elapsed (waitForImportCompletion jobId apiClient timeout) > timeout * 1000"
    unfolding waitForImportCompletion_def using importLoop_timeout_late by blast
  have e4: "list_all (\<lambda>t. t \<le> timeout * 1000) (pr_fetches (waitForExportCompletion jobId apiClient timeout))"
    unfolding waitForExportCompletion_def by (rule exportLoop_fetch_times) simp
  have i4: "list_all (\<lambda>t. t \<le> timeout * 1000) (pr_fetches (waitForImportCompletion jobId apiClient timeout))"
    unfolding waitForImportCompletion_def by (rule importLoop_fetch_times) simp
  have e5: "length (pr_fetches (waitForExportCompletion jobId apiClient timeout)) \<le> timeout * 1000 div 2000 + 1"
    unfolding waitForExportCompletion_def
    using exportLoop_fetch_count [of jobId apiClient timeout 0 0 "[]"] by simp
  have i5: "length (pr_fetches (waitForImportCompletion jobId apiClient timeout)) \<le> timeout * 1000 div 2000 + 1"
    unfolding waitForImportCompletion_def
    using importLoop_fetch_count [of jobId apiClient timeout 0 0 "[]"] by simp
  from e1 e2 e3 e4 e5 i1 i2 i3 i4 i5 show ?thesis by (intro conjI)
qed

theorem polling_timeout_witness:
  "exportLoop ''job-42'' (steadyClient 1000 (statusOf ''Processing'' [])) 6 2 12000 [0, 6000] []
     = \<lparr>pr_outcome = Thrown AtTimeoutCheck (Error ''Export job timed out after 6 seconds''),
        pr_elapsed = 12000, pr_fetches = [0, 6000], pr_log = []\<rparr>
   \<and> take 1 (pr_fetches (exportLoop ''job-42'' (steadyClient 1000 (statusOf ''Processing'' [])) 6 0 0 [] []))
     = [0]
   \<and> pr_outcome (waitForExportCompletion ''job-42'' (steadyClient 1000 (statusOf ''Processing'' [])) 6)
     = Thrown AtTimeoutCheck (Error ''Export job timed out after 6 seconds'')
   \<and> pr_elapsed (waitForExportCompletion ''job-42'' (steadyClient 1000 (statusOf ''Processing'' [])) 6)
     > 6 * 1000
   \<and> pr_fetches (waitForExportCompletion ''job-42'' (steadyClient 1000 (statusOf ''Processing'' [])) 6)
     = [0, 6000]
   \<and> pr_outcome (waitForImportCompletion ''job-42'' (steadyClient 1000 (statusOf ''Processing'' [])) 6)
     = Thrown AtTimeoutCheck (Error ''Import job timed out after 6 seconds'')
   \<and> pr_elapsed (waitForImportCompletion ''job-42'' (steadyClient 1000 (statusOf ''Processing'' [])) 6)
     > 6 * 1000"
proof -
  note w = polling_timeout [where jobId = "''job-42''" and timeout = 6
      and apiClient = "steadyClient 1000 (statusOf ''Processing'' [])"]
  have late: "(12000::nat) > 6 * 1000" and early: "\<not> (0::nat) > 6 * 1000" by simp_all
  have ex: "pr_outcome (waitForExportCompletion ''job-42'' (steadyClient 1000 (statusOf ''Processing'' [])) 6)
     = Thrown AtTimeoutCheck (Error ''Export job timed out after 6 seconds'')"
    and fx: "pr_fetches (waitForExportCompletion ''job-42'' (steadyClient 1000 (statusOf ''Processing'' [])) 6)
     = [0, 6000]"
    by (simp_all add: waitForExportCompletion_def loop_eval lower_eval)
  have im: "pr_outcome (waitForImportCompletion ''job-42'' (steadyClient 1000 (statusOf ''Processing'' [])) 6)
     = Thrown AtTimeoutCheck (Error ''Import job timed out after 6 seconds'')"
    by (simp add: waitForImportCompletion_def loop_eval lower_eval)
  from w [where elapsed = 12000 and k = 2 and fetches = "[0, 6000]" and log = "[]"] late
  have c1: "exportLoop ''job-42'' (steadyClient 1000 (statusOf ''Processing'' [])) 6 2 12000 [0, 6000] []
     = \<lparr>pr_outcome = Thrown AtTimeoutCheck (Error ''Export job timed out after 6 seconds''),
        pr_elapsed = 12000, pr_fetches = [0, 6000], pr_log = []\<rparr>"
    by (simp add: showNat.simps digitUnit_def)
  from w [where elapsed = 0 and k = 0 and fetches = "[]" and log = "[]"] early
  have c2: "take 1 (pr_fetches (exportLoop ''job-42'' (steadyClient 1000 (statusOf ''Processing'' [])) 6 0 0 [] []))
     = [0]"
    by simp
  from w [where elapsed = 0 and k = 0 and fetches = "[]" and log = "[]"] ex
  have c3: "pr_elapsed (waitForExportCompletion ''job-42'' (steadyClient 1000 (statusOf ''Processing'' [])) 6)
     > 6 * 1000"
    by blast
  from w [where elapsed = 0 and k = 0 and fetches = "[]" and log = "[]"] im
  have c4: "pr_elapsed (waitForImportCompletion ''job-42'' (steadyClient 1000 (statusOf ''Processing'' [])) 6)
     > 6 * 1000"
    by blast
  from c1 c2 ex c3 fx im c4 show ?thesis by (intro conjI)
qed

section \<open>C10: the Usage object\<close>

text \<open>
  Claim C10. No event of \<open>downloadResults\<close>, be it a log line, a download request or a
  write, belongs to an object whose name is exactly \<open>Usage\<close>, whatever the status, the
  file URLs and the requested object type are.
\<close>

theorem usage_never_downloaded:
  "list_all (\<lambda>ev. case objectOf ev of None \<Rightarrow> True | Some obj \<Rightarrow> obj_name obj \<noteq> ''Usage'')
     (fst (downloadResults env path opts status))"
proof -
  have "obj_name obj \<noteq> ''Usage''"
    if "ev \<in> set (fst (downloadResults env path opts status))" "objectOf ev = Some obj" for ev obj
  proof (cases "st_objects status")
    case None
    with that show ?thesis by (auto simp: downloadResults_def)
  next
    case (Some objects)
    show ?thesis
    proof (cases "length objects = 0")
      case True
      with Some that show ?thesis by (auto simp: downloadResults_def)
    next
      case False
      define valid where "valid = filter (\<lambda>obj. obj_name obj \<noteq> ''Usage'') objects"
      obtain evs x where l: "downloadLoop env path opts (length (filter completedWithFile valid) > 1) valid = (evs, x)"
        by force
      with Some False that(1) have "ev \<in> set evs"
        by (simp add: downloadResults_def Let_def valid_def)
      from downloadLoop_events [OF l this] that(2) have "obj \<in> set valid" by auto
      then show ?thesis by (simp add: valid_def)
    qed
  qed
  then show ?thesis by (auto simp: list_all_iff split: option.splits)
qed

theorem usage_never_downloaded_witness:
  "fst (downloadResults exampleEnv examplePath (exampleOptions (Some ''Usage'') None)
      (statusOf ''Completed'' [usageObject])) = []
   \<and> completedWithFile usageObject
   \<and> isRequested (exampleOptions (Some ''Usage'') None) usageObject
   \<and> list_all (\<lambda>ev. case objectOf ev of None \<Rightarrow> True | Some obj \<Rightarrow> obj_name obj \<noteq> ''Usage'')
       (fst (downloadResults exampleEnv examplePath (exampleOptions None None)
          (statusOf ''Completed'' [usageObject, productObject])))"
proof -
  have "fst (downloadResults exampleEnv examplePath (exampleOptions (Some ''Usage'') None)
      (statusOf ''Completed'' [usageObject])) = []"
    and "completedWithFile usageObject"
    and "isRequested (exampleOptions (Some ''Usage'') None) usageObject"
    by (simp_all add: download_eval lower_eval)
  with usage_never_downloaded [of exampleEnv examplePath "exampleOptions None None"
         "statusOf ''Completed'' [usageObject, productObject]"]
  show ?thesis by simp
qed

end
